theory Spec2Isabelle
  imports Main "HOL-Library.AList" "HOL-Library.Sublist"
begin

section \<open>The colour assignment engine of colors.js\<close>

text \<open>
  The module keeps two module-level variables, \<open>colorCache\<close> (a plain object used as a
  dictionary from series names to colours) and \<open>availableColors\<close> (an array), and exports
  four functions over them. The model threads both variables through every function as a
  record. Names and colours are strings of 8-bit characters.
\<close>

subsection \<open>JavaScript values and plain objects\<close>

text \<open>
  The values that \<open>colorCache[name]\<close> can produce: \<open>undefined\<close> for an absent property,
  a string for a property of the object itself, and, because \<open>colorCache\<close> is created by
  the literal \<open>{}\<close> and so inherits from \<open>Object.prototype\<close>, the inherited member for a
  name such as \<open>constructor\<close> or \<open>toString\<close>. \<open>ProtoMember k\<close> stands for the member of
  \<open>Object.prototype\<close> called \<open>k\<close>: a built-in function, or the prototype object itself for
  \<open>__proto__\<close>. Different names give different members.
\<close>

datatype jsval = Undefined | Str string | ProtoMember string

fun truthy :: "jsval \<Rightarrow> bool" where
  "truthy Undefined = False"
| "truthy (Str s) = (s \<noteq> [])"
| "truthy (ProtoMember k) = True"

text \<open>The property names of \<open>Object.prototype\<close> in a browser (ECMA-262 with Annex B).\<close>

definition objectPrototypeKeys :: "string list" where
  "objectPrototypeKeys =
     [''constructor'', ''__defineGetter__'', ''__defineSetter__'', ''hasOwnProperty'',
      ''__lookupGetter__'', ''__lookupSetter__'', ''isPrototypeOf'',
      ''propertyIsEnumerable'', ''toString'', ''valueOf'', ''__proto__'',
      ''toLocaleString'']"

text \<open>
  A plain object whose own properties all hold strings is an association list with one
  pair per own property. The code only asks for membership among the values and for
  the number of keys, so the enumeration order plays no role.
\<close>

type_synonym obj = "(string \<times> string) list"

text \<open>\<open>obj[k]\<close>: the own property if there is one, else the inherited one, else \<open>undefined\<close>.\<close>

definition obj_get :: "obj \<Rightarrow> string \<Rightarrow> jsval" where
  "obj_get ob k =
     (case map_of ob k of
        Some v \<Rightarrow> Str v
      | None \<Rightarrow> if k \<in> set objectPrototypeKeys then ProtoMember k else Undefined)"

text \<open>
  \<open>obj[k] = v\<close> for a string \<open>v\<close>: an own property is overwritten; otherwise a new own
  property is created, except for \<open>__proto__\<close>, whose inherited setter ignores a value
  that is not an object. The other members of \<open>Object.prototype\<close> are writable data
  properties, so assigning under their names creates an own property.
\<close>

definition obj_set :: "obj \<Rightarrow> string \<Rightarrow> string \<Rightarrow> obj" where
  "obj_set ob k v =
     (if k = ''__proto__'' \<and> k \<notin> fst ` set ob then ob else AList.update k v ob)"

definition object_keys :: "obj \<Rightarrow> string list" where
  "object_keys ob = map fst ob"

definition object_values :: "obj \<Rightarrow> string list" where
  "object_values ob = map snd ob"

subsection \<open>Strings\<close>

text \<open>
  \<open>toLowerCase\<close>, as it acts on the letters A to Z; every other character is kept. The
  category keys below consist of the letters a to z only, and the code uses the lowercased
  name for nothing but the search for these keys.
\<close>

definition lower_char :: "char \<Rightarrow> char" where
  "lower_char c =
     (case map_of (zip ''ABCDEFGHIJKLMNOPQRSTUVWXYZ'' ''abcdefghijklmnopqrstuvwxyz'') c of
        None \<Rightarrow> c
      | Some d \<Rightarrow> d)"

definition toLowerCase :: "string \<Rightarrow> string" where
  "toLowerCase s = map lower_char s"

text \<open>\<open>s.includes(c)\<close>: \<open>c\<close> occurs in \<open>s\<close> as a contiguous substring.\<close>

fun str_includes :: "string \<Rightarrow> string \<Rightarrow> bool" where
  "str_includes [] c = (c = [])"
| "str_includes (x # xs) c = (prefix c (x # xs) \<or> str_includes xs c)"

subsection \<open>Module constants\<close>

definition distinctPalette :: "string list" where
  "distinctPalette =
     [''#E6194B'', ''#3CB44B'', ''#FFE119'', ''#4363D8'', ''#F58231'',
      ''#911EB4'', ''#46F0F0'', ''#F032E6'', ''#BCF60C'', ''#FABEBE'']"

definition categoryBaseColor :: "(string \<times> string) list" where
  "categoryBaseColor =
     [(''ecodesign'', distinctPalette ! 4),
      (''fireplace'', distinctPalette ! 0),
      (''gas'', distinctPalette ! 3),
      (''power'', distinctPalette ! 1),
      (''road'', distinctPalette ! 6)]"

subsection \<open>Module state and the exported functions\<close>

record state =
  colorCache :: obj
  availableColors :: "string list"

text \<open>The state after the module has been loaded.\<close>

definition initial :: state where
  "initial = \<lparr>colorCache = [], availableColors = distinctPalette\<rparr>"

definition resetColorSystem :: "state \<Rightarrow> state" where
  "resetColorSystem s = \<lparr>colorCache = [], availableColors = distinctPalette\<rparr>"

text \<open>
  \<open>Object.keys(categoryBaseColor).find(c => lower.includes(c))\<close> for the lowercased
  name; \<open>None\<close> is \<open>undefined\<close>.
\<close>

definition findCategory :: "string \<Rightarrow> string option" where
  "findCategory name =
     find (\<lambda>c. str_includes (toLowerCase name) c) (map fst categoryBaseColor)"

text \<open>\<open>cat ? categoryBaseColor[cat] : null\<close>; \<open>None\<close> is \<open>null\<close>.\<close>

definition baseColorOf :: "string option \<Rightarrow> string option" where
  "baseColorOf cat =
     (case cat of
        None \<Rightarrow> None
      | Some c \<Rightarrow> if c = [] then None else map_of categoryBaseColor c)"

text \<open>
  The second \<open>if\<close> of \<open>getColorForGroup\<close>: keep the base colour unless it is falsy or
  already among the values of the cache, else take the first element of
  \<open>availableColors\<close> that is not among them (\<open>None\<close> is \<open>undefined\<close>).
\<close>

definition avoidDuplicates :: "state \<Rightarrow> string option \<Rightarrow> string option" where
  "avoidDuplicates s baseColor =
     (let firstFree = find (\<lambda>c. c \<notin> set (object_values (colorCache s))) (availableColors s)
      in case baseColor of
           None \<Rightarrow> firstFree
         | Some b \<Rightarrow>
             if b = [] \<or> b \<in> set (object_values (colorCache s)) then firstFree else Some b)"

text \<open>The third \<open>if\<close>: a falsy choice is replaced by the palette entry at the key count.\<close>

definition exhaustedFallback :: "state \<Rightarrow> string option \<Rightarrow> string" where
  "exhaustedFallback s chosenColor =
     (let wrap = distinctPalette !
                   (length (object_keys (colorCache s)) mod length distinctPalette)
      in case chosenColor of
           None \<Rightarrow> wrap
         | Some c \<Rightarrow> if c = [] then wrap else c)"

text \<open>
  \<open>getColorForGroup(name)\<close>; the argument \<open>None\<close> is \<open>undefined\<close>. The result is the
  returned value and the state after the call.
\<close>

definition getColorForGroup :: "state \<Rightarrow> string option \<Rightarrow> jsval \<times> state" where
  "getColorForGroup s name =
     (case name of
        None \<Rightarrow> (Str ''#888888'', s)
      | Some n \<Rightarrow>
          if n = [] then (Str ''#888888'', s)
          else if truthy (obj_get (colorCache s) n) then (obj_get (colorCache s) n, s)
          else
            let chosenColor =
                  exhaustedFallback s (avoidDuplicates s (baseColorOf (findCategory n)))
            in (Str chosenColor, s\<lparr>colorCache := obj_set (colorCache s) n chosenColor\<rparr>))"

text \<open>\<open>getColorCache()\<close> returns a copy of the cache.\<close>

definition getColorCache :: "state \<Rightarrow> obj" where
  "getColorCache s = colorCache s"

definition setColorForGroup :: "state \<Rightarrow> string \<Rightarrow> string \<Rightarrow> state" where
  "setColorForGroup s name color = s\<lparr>colorCache := obj_set (colorCache s) name color\<rparr>"

subsection \<open>Sequences of calls\<close>

text \<open>Calling \<open>getColorForGroup\<close> on each argument in turn, collecting the results.\<close>

fun assignAll :: "state \<Rightarrow> string option list \<Rightarrow> jsval list \<times> state" where
  "assignAll s [] = ([], s)"
| "assignAll s (n # ns) =
     (let (r, s1) = getColorForGroup s n;
          (rs, s2) = assignAll s1 ns
      in (r # rs, s2))"

datatype call =
    ResetColorSystem
  | GetColorForGroup "string option"
  | GetColorCache
  | SetColorForGroup string string

fun step :: "state \<Rightarrow> call \<Rightarrow> state" where
  "step s ResetColorSystem = resetColorSystem s"
| "step s (GetColorForGroup name) = snd (getColorForGroup s name)"
| "step s GetColorCache = s"
| "step s (SetColorForGroup name color) = setColorForGroup s name color"

definition run :: "state \<Rightarrow> call list \<Rightarrow> state" where
  "run s cs = foldl step s cs"

subsection \<open>A proof device: caches without collisions\<close>

text \<open>
  The states in which the automatic assignment has worked so far without reusing a colour:
  \<open>availableColors\<close> is the palette, every key occurs once, and the values are distinct
  palette colours.
\<close>

definition collision_free :: "state \<Rightarrow> bool" where
  "collision_free s =
     (availableColors s = distinctPalette \<and>
      distinct (object_keys (colorCache s)) \<and>
      distinct (object_values (colorCache s)) \<and>
      set (object_values (colorCache s)) \<subseteq> set distinctPalette)"

section \<open>Properties\<close>

lemma str_includes_sublist: "str_includes s c = sublist c s"
  by (induction s) (auto simp: sublist_Cons_right)

subsection \<open>Evaluation and basic facts\<close>

lemmas eval_defs = getColorForGroup_def setColorForGroup_def resetColorSystem_def
  getColorCache_def initial_def obj_get_def obj_set_def objectPrototypeKeys_def
  exhaustedFallback_def avoidDuplicates_def baseColorOf_def findCategory_def
  toLowerCase_def lower_char_def categoryBaseColor_def distinctPalette_def
  object_values_def object_keys_def Let_def

lemma length_distinctPalette: "length distinctPalette = 10"
  by (simp add: distinctPalette_def)

lemma distinct_distinctPalette: "distinct distinctPalette"
  by (simp add: distinctPalette_def)

lemma distinctPalette_nonempty: "c \<in> set distinctPalette \<Longrightarrow> c \<noteq> []"
  by (auto simp: distinctPalette_def)

lemma wrap_in_palette: "distinctPalette ! (n mod length distinctPalette) \<in> set distinctPalette"
  by (rule nth_mem) (simp add: length_distinctPalette)

lemma exhaustedFallback_nonempty: "exhaustedFallback s c \<noteq> []"
  using wrap_in_palette distinctPalette_nonempty
  by (auto simp: exhaustedFallback_def Let_def split: option.splits)

lemma categoryBaseColor_table:
  "categoryBaseColor =
     [(''ecodesign'', ''#F58231''), (''fireplace'', ''#E6194B''), (''gas'', ''#4363D8''),
      (''power'', ''#3CB44B''), (''road'', ''#46F0F0'')]"
  by (simp add: categoryBaseColor_def distinctPalette_def)

lemma baseColor_in_palette:
  "map_of categoryBaseColor k = Some col \<Longrightarrow> col \<in> set distinctPalette"
  by (auto simp: categoryBaseColor_def distinctPalette_def split: if_splits)

lemma baseColorOf_in_palette: "baseColorOf cat = Some b \<Longrightarrow> b \<in> set distinctPalette"
  by (auto simp: baseColorOf_def baseColor_in_palette split: option.splits if_splits)

lemma category_key_nonempty: "map_of categoryBaseColor k = Some col \<Longrightarrow> k \<noteq> []"
  by (auto simp: categoryBaseColor_def split: if_splits)

lemma findCategory_nonempty: "findCategory n = Some k \<Longrightarrow> n \<noteq> []"
  by (auto simp: findCategory_def toLowerCase_def categoryBaseColor_def split: if_splits)

text \<open>No member name of \<open>Object.prototype\<close> contains a category key.\<close>

lemma prototype_keys_all_no_category:
  "list_all (\<lambda>n. findCategory n = None) objectPrototypeKeys"
  by code_simp

lemma prototype_keys_no_category: "n \<in> set objectPrototypeKeys \<Longrightarrow> findCategory n = None"
  using prototype_keys_all_no_category by (simp add: list_all_iff)

subsection \<open>Reading and writing the cache object\<close>

lemma obj_get_own: "map_of ob k = Some v \<Longrightarrow> obj_get ob k = Str v"
  by (simp add: obj_get_def)

lemma map_of_obj_set:
  "k \<noteq> ''__proto__'' \<or> k \<in> fst ` set ob \<Longrightarrow> map_of (obj_set ob k v) = (map_of ob)(k \<mapsto> v)"
  by (auto simp: obj_set_def update_conv')

lemma falsy_not_proto_or_own:
  "\<not> truthy (obj_get ob n) \<Longrightarrow> n \<noteq> ''__proto__'' \<or> n \<in> fst ` set ob"
  by (auto simp: obj_get_def objectPrototypeKeys_def split: option.splits if_splits
      dest: map_of_SomeD) (metis domI dom_map_of_conv_image_fst)

lemma obj_get_obj_set:
  "\<not> truthy (obj_get ob n) \<Longrightarrow> obj_get (obj_set ob n v) n = Str v"
  using falsy_not_proto_or_own[of ob n] by (simp add: obj_get_def map_of_obj_set)

subsection \<open>The two paths of \<open>getColorForGroup\<close> for a non-empty name\<close>

lemma getColorForGroup_cached:
  "n \<noteq> [] \<Longrightarrow> truthy (obj_get (colorCache s) n) \<Longrightarrow>
   getColorForGroup s (Some n) = (obj_get (colorCache s) n, s)"
  by (simp add: getColorForGroup_def)

lemma getColorForGroup_fresh:
  "n \<noteq> [] \<Longrightarrow> \<not> truthy (obj_get (colorCache s) n) \<Longrightarrow>
   getColorForGroup s (Some n) =
     (Str (exhaustedFallback s (avoidDuplicates s (baseColorOf (findCategory n)))),
      s\<lparr>colorCache := obj_set (colorCache s) n
            (exhaustedFallback s (avoidDuplicates s (baseColorOf (findCategory n))))\<rparr>)"
  by (simp add: getColorForGroup_def Let_def)

lemma getColorForGroup_twice:
  "getColorForGroup (snd (getColorForGroup s name)) name = getColorForGroup s name"
proof (cases name)
  case None
  then show ?thesis by (simp add: getColorForGroup_def)
next
  case (Some n)
  show ?thesis
  proof (cases "n = [] \<or> truthy (obj_get (colorCache s) n)")
    case True
    then show ?thesis using Some by (auto simp: getColorForGroup_def)
  next
    case False
    then have n: "n \<noteq> []" and f: "\<not> truthy (obj_get (colorCache s) n)" by auto
    let ?c = "exhaustedFallback s (avoidDuplicates s (baseColorOf (findCategory n)))"
    let ?s1 = "s\<lparr>colorCache := obj_set (colorCache s) n ?c\<rparr>"
    have 1: "getColorForGroup s (Some n) = (Str ?c, ?s1)"
      by (rule getColorForGroup_fresh[OF n f])
    have "obj_get (colorCache ?s1) n = Str ?c"
      using obj_get_obj_set[OF f] by simp
    then have "getColorForGroup ?s1 (Some n) = (Str ?c, ?s1)"
      using n exhaustedFallback_nonempty[of s] by (simp add: getColorForGroup_cached)
    with 1 Some show ?thesis by simp
  qed
qed

subsection \<open>What leaves \<open>availableColors\<close> alone\<close>

lemma resetColorSystem_initial: "resetColorSystem s = initial"
  by (simp add: resetColorSystem_def initial_def)

lemma availableColors_getColorForGroup:
  "availableColors (snd (getColorForGroup s name)) = availableColors s"
  by (simp add: getColorForGroup_def Let_def split: option.splits)

lemma availableColors_setColorForGroup:
  "availableColors (setColorForGroup s name color) = availableColors s"
  by (simp add: setColorForGroup_def)

lemma availableColors_step:
  "availableColors s = distinctPalette \<Longrightarrow> availableColors (step s c) = distinctPalette"
  by (cases c)
     (simp_all add: availableColors_getColorForGroup availableColors_setColorForGroup
        resetColorSystem_def)

lemma availableColors_run:
  "availableColors s = distinctPalette \<Longrightarrow> availableColors (run s cs) = distinctPalette"
  unfolding run_def
  by (induction cs arbitrary: s) (simp_all add: availableColors_step)

lemma obj_get_fresh_name:
  "n \<notin> fst ` set ob \<Longrightarrow> n \<notin> set objectPrototypeKeys \<Longrightarrow> obj_get ob n = Undefined"
  using map_of_eq_None_iff[of ob n] by (simp add: obj_get_def)

lemma obj_set_fresh_name:
  "n \<notin> fst ` set ob \<Longrightarrow> n \<noteq> ''__proto__'' \<Longrightarrow> obj_set ob n v = ob @ [(n, v)]"
  by (induction ob) (auto simp: obj_set_def)

lemma proto_in_prototype_keys: "''__proto__'' \<in> set objectPrototypeKeys"
  by (simp add: objectPrototypeKeys_def)

lemma getColorForGroup_string_result:
  "n \<notin> set objectPrototypeKeys \<Longrightarrow> \<exists>c. c \<noteq> [] \<and> fst (getColorForGroup s (Some n)) = Str c"
  using exhaustedFallback_nonempty[of s]
  by (auto simp: getColorForGroup_def obj_get_def Let_def split: option.splits)

lemma getColorForGroup_undefined_arg: "fst (getColorForGroup s None) = Str ''#888888''"
  by (simp add: getColorForGroup_def)

subsection \<open>Assigning a colour to a new name\<close>

lemma collision_free_initial: "collision_free initial"
  by (simp add: collision_free_def initial_def object_keys_def object_values_def)

lemma first_free_color:
  assumes "\<exists>c\<in>set xs. c \<notin> V"
  shows "\<exists>i<length xs. find (\<lambda>c. c \<notin> V) xs = Some (xs ! i) \<and> xs ! i \<notin> V \<and> (\<forall>j<i. xs ! j \<in> V)"
proof -
  from assms have "find (\<lambda>c. c \<notin> V) xs \<noteq> None"
    by (auto simp: find_None_iff)
  then obtain x where "find (\<lambda>c. c \<notin> V) xs = Some x" by blast
  then show ?thesis by (auto simp: find_Some_iff)
qed

lemma free_color_exists:
  assumes "distinct vs" and "set vs \<subseteq> set distinctPalette" and "length vs < 10"
  shows "\<exists>c\<in>set distinctPalette. c \<notin> set vs"
proof (rule ccontr)
  assume "\<not> (\<exists>c\<in>set distinctPalette. c \<notin> set vs)"
  then have "set distinctPalette \<subseteq> set vs" by blast
  then have "card (set distinctPalette) \<le> card (set vs)"
    by (simp add: card_mono)
  moreover have "card (set distinctPalette) = 10"
    using distinct_distinctPalette length_distinctPalette by (simp add: distinct_card)
  moreover have "card (set vs) = length vs"
    using assms(1) by (simp add: distinct_card)
  ultimately show False using assms(3) by simp
qed

lemma palette_used_up:
  assumes "distinct vs" and "set vs \<subseteq> set distinctPalette" and "length vs = 10"
  shows "set vs = set distinctPalette"
proof -
  have "card (set vs) = card (set distinctPalette)"
    using assms(1,3) distinct_distinctPalette length_distinctPalette
    by (simp add: distinct_card)
  with assms(2) show ?thesis
    by (simp add: card_subset_eq)
qed

lemma avoidDuplicates_free:
  assumes "availableColors s = distinctPalette"
    and "\<exists>c\<in>set distinctPalette. c \<notin> set (object_values (colorCache s))"
  shows "\<exists>c. avoidDuplicates s (baseColorOf cat) = Some c \<and> c \<in> set distinctPalette \<and>
             c \<notin> set (object_values (colorCache s))"
proof -
  from first_free_color[OF assms(2)] obtain i where i: "i < length distinctPalette"
    and f: "find (\<lambda>c. c \<notin> set (object_values (colorCache s))) distinctPalette =
              Some (distinctPalette ! i)"
    and n: "distinctPalette ! i \<notin> set (object_values (colorCache s))"
    by blast
  have p: "distinctPalette ! i \<in> set distinctPalette" using i by simp
  show ?thesis
  proof (cases "baseColorOf cat")
    case None
    then show ?thesis using f n p assms(1) by (simp add: avoidDuplicates_def)
  next
    case (Some b)
    then have "b \<in> set distinctPalette" by (rule baseColorOf_in_palette)
    then show ?thesis using Some f n p assms(1)
      by (auto simp: avoidDuplicates_def)
  qed
qed

lemma exhaustedFallback_chosen: "c \<noteq> [] \<Longrightarrow> exhaustedFallback s (Some c) = c"
  by (simp add: exhaustedFallback_def)

lemma prototype_keys_nonempty: "n \<in> set objectPrototypeKeys \<Longrightarrow> n \<noteq> []"
  by (auto simp: objectPrototypeKeys_def)

lemma getColorForGroup_inherited:
  "n \<in> set objectPrototypeKeys \<Longrightarrow> n \<notin> fst ` set (colorCache s) \<Longrightarrow>
   getColorForGroup s (Some n) = (ProtoMember n, s)"
  using map_of_eq_None_iff[of "colorCache s" n] prototype_keys_nonempty[of n]
  by (simp add: getColorForGroup_def obj_get_def)

lemma getColorForGroup_new_name:
  assumes cf: "collision_free s" and ne: "n \<noteq> []"
    and nk: "n \<notin> fst ` set (colorCache s)" and np: "n \<notin> set objectPrototypeKeys"
    and len: "length (colorCache s) < 10"
  shows "\<exists>c. getColorForGroup s (Some n) = (Str c, s\<lparr>colorCache := colorCache s @ [(n, c)]\<rparr>) \<and>
             c \<in> set distinctPalette \<and> c \<notin> set (object_values (colorCache s))"
proof -
  have av: "availableColors s = distinctPalette" using cf by (simp add: collision_free_def)
  have "\<exists>c\<in>set distinctPalette. c \<notin> set (object_values (colorCache s))"
    using cf len by (intro free_color_exists) (simp_all add: collision_free_def object_values_def)
  from avoidDuplicates_free[OF av this, of "findCategory n"] obtain c
    where a: "avoidDuplicates s (baseColorOf (findCategory n)) = Some c"
      and p: "c \<in> set distinctPalette" and f: "c \<notin> set (object_values (colorCache s))"
    by blast
  have e: "exhaustedFallback s (Some c) = c"
    using distinctPalette_nonempty[OF p] by (rule exhaustedFallback_chosen)
  have u: "\<not> truthy (obj_get (colorCache s) n)"
    using nk np by (simp add: obj_get_fresh_name)
  have "n \<noteq> ''__proto__''" using np proto_in_prototype_keys by auto
  then have st: "obj_set (colorCache s) n c = colorCache s @ [(n, c)]"
    using nk by (simp add: obj_set_fresh_name)
  from getColorForGroup_fresh[OF ne u] a e st p f show ?thesis by simp
qed

lemma collision_free_extend:
  "collision_free s \<Longrightarrow> n \<notin> fst ` set (colorCache s) \<Longrightarrow> c \<in> set distinctPalette \<Longrightarrow>
   c \<notin> set (object_values (colorCache s)) \<Longrightarrow>
   collision_free (s\<lparr>colorCache := colorCache s @ [(n, c)]\<rparr>)"
  by (auto simp: collision_free_def object_keys_def object_values_def)

lemma getColorForGroup_exhausted:
  assumes ne: "n \<noteq> []" and u: "\<not> truthy (obj_get (colorCache s) n)"
    and av: "availableColors s = distinctPalette"
    and full: "set distinctPalette \<subseteq> set (object_values (colorCache s))"
  shows "fst (getColorForGroup s (Some n)) =
           Str (distinctPalette ! (length (object_keys (colorCache s)) mod 10))"
proof -
  have ff: "find (\<lambda>c. c \<notin> set (object_values (colorCache s))) distinctPalette = None"
    using full by (auto simp: find_None_iff)
  have "avoidDuplicates s (baseColorOf (findCategory n)) = None"
  proof (cases "baseColorOf (findCategory n)")
    case None
    then show ?thesis using ff av by (simp add: avoidDuplicates_def)
  next
    case (Some b)
    then have "b \<in> set (object_values (colorCache s))"
      using baseColorOf_in_palette full by blast
    then show ?thesis using Some ff av by (simp add: avoidDuplicates_def)
  qed
  then show ?thesis
    using getColorForGroup_fresh[OF ne u]
    by (simp add: exhaustedFallback_def length_distinctPalette)
qed



subsection \<open>Sequences of new names\<close>

lemma assignAll_Cons_eq:
  "getColorForGroup s n = (r, s1) \<Longrightarrow> assignAll s1 ns = (rs, s2) \<Longrightarrow>
   assignAll s (n # ns) = (r # rs, s2)"
  by simp

lemma assignAll_append:
  "assignAll s xs = (rs1, s1) \<Longrightarrow> assignAll s1 ys = (rs2, s2) \<Longrightarrow>
   assignAll s (xs @ ys) = (rs1 @ rs2, s2)"
  by (induction xs arbitrary: s rs1) (auto split: prod.splits)

lemma assignAll_no_collision:
  assumes "collision_free s" and "distinct ns" and "[] \<notin> set ns"
    and "set ns \<inter> fst ` set (colorCache s) = {}"
    and "length (colorCache s) + length ns \<le> 10"
  shows "\<exists>rs s'. assignAll s (map Some ns) = (rs, s') \<and> collision_free s' \<and> distinct rs \<and>
           (\<forall>r\<in>set rs. (\<exists>n\<in>set ns. r = ProtoMember n) \<or>
                        (\<exists>c. r = Str c \<and> c \<notin> set (object_values (colorCache s))))"
  using assms
proof (induction ns arbitrary: s)
  case Nil
  then show ?case by simp
next
  case (Cons n ns)
  have ne: "n \<noteq> []" using Cons.prems(3) by auto
  have nk: "n \<notin> fst ` set (colorCache s)" using Cons.prems(4) by auto
  have nn: "n \<notin> set ns" and dn: "distinct ns" using Cons.prems(2) by auto
  have e: "[] \<notin> set ns" using Cons.prems(3) by auto
  show ?case
  proof (cases "n \<in> set objectPrototypeKeys")
    case True
    have g: "getColorForGroup s (Some n) = (ProtoMember n, s)"
      using True nk by (rule getColorForGroup_inherited)
    have "set ns \<inter> fst ` set (colorCache s) = {}" using Cons.prems(4) by auto
    moreover have "length (colorCache s) + length ns \<le> 10" using Cons.prems(5) by simp
    ultimately obtain rs s' where a: "assignAll s (map Some ns) = (rs, s')"
      and cf: "collision_free s'" and d: "distinct rs"
      and r: "\<forall>r\<in>set rs. (\<exists>m\<in>set ns. r = ProtoMember m) \<or>
                        (\<exists>c. r = Str c \<and> c \<notin> set (object_values (colorCache s)))"
      using Cons.IH[OF Cons.prems(1) dn e] by blast
    have "ProtoMember n \<notin> set rs" using r nn by auto
    then have "distinct (ProtoMember n # rs)" using d by simp
    moreover have "assignAll s (map Some (n # ns)) = (ProtoMember n # rs, s')"
      using g a by simp
    moreover have "\<forall>r\<in>set (ProtoMember n # rs). (\<exists>m\<in>set (n # ns). r = ProtoMember m) \<or>
                        (\<exists>c. r = Str c \<and> c \<notin> set (object_values (colorCache s)))"
      using r by auto
    ultimately show ?thesis using cf by blast
  next
    case False
    have len: "length (colorCache s) < 10" using Cons.prems(5) by simp
    from getColorForGroup_new_name[OF Cons.prems(1) ne nk False len] obtain c
      where g: "getColorForGroup s (Some n) = (Str c, s\<lparr>colorCache := colorCache s @ [(n, c)]\<rparr>)"
        and p: "c \<in> set distinctPalette" and f: "c \<notin> set (object_values (colorCache s))"
      by blast
    let ?s1 = "s\<lparr>colorCache := colorCache s @ [(n, c)]\<rparr>"
    have cf1: "collision_free ?s1"
      using Cons.prems(1) nk p f by (rule collision_free_extend)
    have k1: "set ns \<inter> fst ` set (colorCache ?s1) = {}"
      using Cons.prems(4) nn by auto
    have l1: "length (colorCache ?s1) + length ns \<le> 10" using Cons.prems(5) by simp
    from Cons.IH[OF cf1 dn e k1 l1] obtain rs s' where a: "assignAll ?s1 (map Some ns) = (rs, s')"
      and cf: "collision_free s'" and d: "distinct rs"
      and r: "\<forall>r\<in>set rs. (\<exists>m\<in>set ns. r = ProtoMember m) \<or>
                        (\<exists>c'. r = Str c' \<and> c' \<notin> set (object_values (colorCache ?s1)))"
      by blast
    have v1: "set (object_values (colorCache ?s1)) = insert c (set (object_values (colorCache s)))"
      by (simp add: object_values_def)
    have "Str c \<notin> set rs" using r v1 by auto
    then have "distinct (Str c # rs)" using d by simp
    moreover have "assignAll s (map Some (n # ns)) = (Str c # rs, s')"
      using g a by simp
    moreover have "\<forall>r\<in>set (Str c # rs). (\<exists>m\<in>set (n # ns). r = ProtoMember m) \<or>
                        (\<exists>c'. r = Str c' \<and> c' \<notin> set (object_values (colorCache s)))"
      using r v1 f by auto
    ultimately show ?thesis using cf by blast
  qed
qed

lemma assignAll_new_names:
  assumes "collision_free s" and "distinct ns" and "[] \<notin> set ns"
    and "set ns \<inter> fst ` set (colorCache s) = {}"
    and "set ns \<inter> set objectPrototypeKeys = {}"
    and "length (colorCache s) + length ns \<le> 10"
  shows "\<exists>cs. length cs = length ns \<and>
           assignAll s (map Some ns) = (map Str cs, s\<lparr>colorCache := colorCache s @ zip ns cs\<rparr>) \<and>
           collision_free (s\<lparr>colorCache := colorCache s @ zip ns cs\<rparr>)"
  using assms
proof (induction ns arbitrary: s)
  case Nil
  then show ?case by simp
next
  case (Cons n ns)
  have ne: "n \<noteq> []" using Cons.prems(3) by auto
  have nk: "n \<notin> fst ` set (colorCache s)" using Cons.prems(4) by auto
  have np: "n \<notin> set objectPrototypeKeys" using Cons.prems(5) by auto
  have nn: "n \<notin> set ns" and dn: "distinct ns" using Cons.prems(2) by auto
  have e: "[] \<notin> set ns" using Cons.prems(3) by auto
  have pr: "set ns \<inter> set objectPrototypeKeys = {}" using Cons.prems(5) by auto
  have len: "length (colorCache s) < 10" using Cons.prems(6) by simp
  from getColorForGroup_new_name[OF Cons.prems(1) ne nk np len] obtain c
    where g: "getColorForGroup s (Some n) = (Str c, s\<lparr>colorCache := colorCache s @ [(n, c)]\<rparr>)"
      and p: "c \<in> set distinctPalette" and f: "c \<notin> set (object_values (colorCache s))"
    by blast
  let ?s1 = "s\<lparr>colorCache := colorCache s @ [(n, c)]\<rparr>"
  have cf1: "collision_free ?s1"
    using Cons.prems(1) nk p f by (rule collision_free_extend)
  have k1: "set ns \<inter> fst ` set (colorCache ?s1) = {}"
    using Cons.prems(4) nn by auto
  have l1: "length (colorCache ?s1) + length ns \<le> 10" using Cons.prems(6) by simp
  from Cons.IH[OF cf1 dn e k1 pr l1] obtain cs where lc: "length cs = length ns"
    and a: "assignAll ?s1 (map Some ns) =
              (map Str cs, ?s1\<lparr>colorCache := colorCache ?s1 @ zip ns cs\<rparr>)"
    and cf: "collision_free (?s1\<lparr>colorCache := colorCache ?s1 @ zip ns cs\<rparr>)"
    by blast
  have eq: "?s1\<lparr>colorCache := colorCache ?s1 @ zip ns cs\<rparr> =
            s\<lparr>colorCache := colorCache s @ zip (n # ns) (c # cs)\<rparr>"
    by simp
  have "assignAll s (map Some (n # ns)) =
          (map Str (c # cs), s\<lparr>colorCache := colorCache s @ zip (n # ns) (c # cs)\<rparr>)"
    using g a eq by simp
  moreover have "length (c # cs) = length (n # ns)" using lc by simp
  moreover have "collision_free (s\<lparr>colorCache := colorCache s @ zip (n # ns) (c # cs)\<rparr>)"
    using cf eq by simp
  ultimately show ?case by blast
qed

lemma eleventh_name:
  assumes l: "length names = 11" and d: "distinct names" and e: "[] \<notin> set names"
    and p: "set names \<inter> set objectPrototypeKeys = {}"
  shows "fst (assignAll initial (map Some names)) ! 10 = Str ''#E6194B'' \<and>
         (\<exists>i<10. fst (assignAll initial (map Some names)) ! i = Str ''#E6194B'')"
proof -
  let ?ns = "take 10 names" and ?n = "names ! 10"
  have split: "names = ?ns @ [?n]"
    using l take_Suc_conv_app_nth[of 10 names] by simp
  have dn: "distinct ?ns" using d by (rule distinct_take)
  have en: "[] \<notin> set ?ns" using e by (auto dest: in_set_takeD)
  have pn: "set ?ns \<inter> set objectPrototypeKeys = {}" using p by (auto dest: in_set_takeD)
  have ln: "length ?ns = 10" using l by simp
  have nmem: "?n \<in> set names" using l by simp
  have n_ne: "?n \<noteq> []" using e nmem by metis
  have n_np: "?n \<notin> set objectPrototypeKeys" using p nmem by blast
  have n_new: "?n \<notin> set ?ns"
    using d split by (metis distinct_append disjoint_iff list.set_intros(1) distinct.simps(2) not_distinct_conv_prefix)
  have "set ?ns \<inter> fst ` set (colorCache initial) = {}" by (simp add: initial_def)
  moreover have "length (colorCache initial) + length ?ns \<le> 10"
    using ln by (simp add: initial_def)
  ultimately obtain cs where lc: "length cs = length ?ns"
    and a: "assignAll initial (map Some ?ns) =
              (map Str cs, initial\<lparr>colorCache := colorCache initial @ zip ?ns cs\<rparr>)"
    and cf: "collision_free (initial\<lparr>colorCache := colorCache initial @ zip ?ns cs\<rparr>)"
    using assignAll_new_names[OF collision_free_initial dn en _ pn] by blast
  let ?s10 = "initial\<lparr>colorCache := colorCache initial @ zip ?ns cs\<rparr>"
  have cache: "colorCache ?s10 = zip ?ns cs" by (simp add: initial_def)
  have keys: "object_keys (colorCache ?s10) = ?ns"
    using lc cache by (simp add: object_keys_def)
  have vals: "object_values (colorCache ?s10) = cs"
    using lc cache by (simp add: object_values_def)
  have lcs: "length cs = 10" using lc ln by simp
  have full: "set cs = set distinctPalette"
    using cf lcs vals by (intro palette_used_up) (simp_all add: collision_free_def)
  have av: "availableColors ?s10 = distinctPalette" by (simp add: initial_def)
  have "?n \<notin> fst ` set (colorCache ?s10)"
    using n_new keys by (metis object_keys_def set_map)
  then have u: "\<not> truthy (obj_get (colorCache ?s10) ?n)"
    using n_np by (simp add: obj_get_fresh_name)
  have "fst (getColorForGroup ?s10 (Some ?n)) =
          Str (distinctPalette ! (length (object_keys (colorCache ?s10)) mod 10))"
    using n_ne u av full vals by (intro getColorForGroup_exhausted) simp_all
  then have g: "fst (getColorForGroup ?s10 (Some ?n)) = Str ''#E6194B''"
    using keys ln by (simp add: distinctPalette_def)
  obtain s11 where g': "getColorForGroup ?s10 (Some ?n) = (Str ''#E6194B'', s11)"
    using g by (cases "getColorForGroup ?s10 (Some ?n)") simp
  then have b: "assignAll ?s10 [Some ?n] = ([Str ''#E6194B''], s11)" by simp
  have "assignAll initial (map Some ?ns @ [Some ?n]) = (map Str cs @ [Str ''#E6194B''], s11)"
    using a b by (rule assignAll_append)
  moreover have "map Some names = map Some ?ns @ [Some ?n]"
    using split by (metis list.simps(8,9) map_append)
  ultimately have all: "fst (assignAll initial (map Some names)) = map Str cs @ [Str ''#E6194B'']"
    by simp
  have r10: "fst (assignAll initial (map Some names)) ! 10 = Str ''#E6194B''"
    using all lcs by (simp add: nth_append)
  have "''#E6194B'' \<in> set cs" using full by (simp add: distinctPalette_def)
  then obtain i where i: "i < length cs" and ci: "cs ! i = ''#E6194B''"
    by (auto simp: in_set_conv_nth)
  then have "fst (assignAll initial (map Some names)) ! i = Str ''#E6194B''"
    using all by (simp add: nth_append)
  with i lcs r10 show ?thesis by auto
qed

subsection \<open>Calls that leave the entry of a name alone\<close>

lemma map_of_obj_set_other: "m \<noteq> n \<Longrightarrow> map_of (obj_set ob m v) n = map_of ob n"
  by (simp add: obj_set_def update_conv')

lemma obj_get_obj_set_other: "m \<noteq> n \<Longrightarrow> obj_get (obj_set ob m v) n = obj_get ob n"
  by (simp add: obj_get_def map_of_obj_set_other)

lemma first_call_lookup:
  assumes "n \<noteq> []" and "getColorForGroup s (Some n) = (r1, s1)"
  shows "obj_get (colorCache s1) n = r1 \<and> truthy r1"
proof (cases "truthy (obj_get (colorCache s) n)")
  case True
  then show ?thesis using assms by (auto simp: getColorForGroup_cached)
next
  case False
  then show ?thesis
    using assms getColorForGroup_fresh[OF assms(1) False] obj_get_obj_set[OF False]
      exhaustedFallback_nonempty[of s]
    by auto
qed

lemma step_keeps_entry:
  assumes t: "truthy (obj_get (colorCache s) n)"
    and r: "c \<noteq> ResetColorSystem" and w: "\<forall>col. c \<noteq> SetColorForGroup n col"
  shows "map_of (colorCache (step s c)) n = map_of (colorCache s) n"
proof (cases c)
  case ResetColorSystem
  then show ?thesis using r by simp
next
  case (GetColorForGroup name)
  show ?thesis
  proof (cases name)
    case None
    then show ?thesis using GetColorForGroup by (simp add: getColorForGroup_def)
  next
    case (Some m)
    show ?thesis
    proof (cases "m = [] \<or> truthy (obj_get (colorCache s) m)")
      case True
      then show ?thesis using GetColorForGroup Some by (auto simp: getColorForGroup_def)
    next
      case False
      then have "m \<noteq> n" using t by auto
      then show ?thesis
        using GetColorForGroup Some False
        by (simp add: getColorForGroup_def Let_def map_of_obj_set_other)
    qed
  qed
next
  case GetColorCache
  then show ?thesis by simp
next
  case (SetColorForGroup m col)
  then have "m \<noteq> n" using w by auto
  then show ?thesis using SetColorForGroup
    by (simp add: setColorForGroup_def map_of_obj_set_other)
qed

lemma obj_get_map_of_cong: "map_of ob n = map_of ob' n \<Longrightarrow> obj_get ob n = obj_get ob' n"
  by (simp add: obj_get_def)

lemma run_keeps_entry:
  assumes "truthy (obj_get (colorCache s) n)"
    and "ResetColorSystem \<notin> set cs" and "\<forall>col. SetColorForGroup n col \<notin> set cs"
  shows "map_of (colorCache (run s cs)) n = map_of (colorCache s) n"
  using assms
proof (induction cs arbitrary: s)
  case Nil
  then show ?case by (simp add: run_def)
next
  case (Cons c cs)
  have c1: "c \<noteq> ResetColorSystem" and c2: "\<forall>col. c \<noteq> SetColorForGroup n col"
    using Cons.prems(2,3) by auto
  have m: "map_of (colorCache (step s c)) n = map_of (colorCache s) n"
    using Cons.prems(1) c1 c2 by (rule step_keeps_entry)
  then have "truthy (obj_get (colorCache (step s c)) n)"
    using Cons.prems(1) obj_get_map_of_cong[OF m] by simp
  moreover have "ResetColorSystem \<notin> set cs" "\<forall>col. SetColorForGroup n col \<notin> set cs"
    using Cons.prems(2,3) by auto
  ultimately have "map_of (colorCache (run (step s c) cs)) n = map_of (colorCache (step s c)) n"
    by (rule Cons.IH)
  with m show ?case by (simp add: run_def)
qed

lemma getColorForGroup_stable:
  assumes n: "n \<noteq> []" and g: "getColorForGroup s (Some n) = (r1, s1)"
    and "ResetColorSystem \<notin> set cs" and "\<forall>col. SetColorForGroup n col \<notin> set cs"
  shows "getColorForGroup (run s1 cs) (Some n) = (r1, run s1 cs) \<and>
         map_of (colorCache (run s1 cs)) n = map_of (colorCache s1) n"
proof -
  from first_call_lookup[OF n g] have l: "obj_get (colorCache s1) n = r1" and t: "truthy r1"
    by auto
  have m: "map_of (colorCache (run s1 cs)) n = map_of (colorCache s1) n"
    using t l assms(3,4) by (intro run_keeps_entry) simp_all
  then have "obj_get (colorCache (run s1 cs)) n = r1"
    using l obj_get_map_of_cong[OF m] by simp
  then show ?thesis using n t m by (simp add: getColorForGroup_cached)
qed

subsection \<open>The category of a name on a freshly loaded module\<close>

lemma category_color_assigned:
  assumes c: "findCategory name = Some k" and m: "map_of categoryBaseColor k = Some col"
  shows "getColorForGroup initial (Some name) =
        (Str col, \<lparr>colorCache = [(name, col)], availableColors = distinctPalette\<rparr>)"
proof -
  have ne: "name \<noteq> []" using c by (rule findCategory_nonempty)
  have np: "name \<notin> set objectPrototypeKeys"
    using c prototype_keys_no_category[of name] by auto
  then have npr: "name \<noteq> ''__proto__''" using proto_in_prototype_keys by auto
  have und: "obj_get (colorCache initial) name = Undefined"
    using np by (simp add: initial_def obj_get_fresh_name)
  have b: "baseColorOf (findCategory name) = Some col"
    using c m category_key_nonempty[OF m] by (simp add: baseColorOf_def)
  have cne: "col \<noteq> []"
    using baseColor_in_palette[OF m] by (rule distinctPalette_nonempty)
  have ch: "exhaustedFallback initial (avoidDuplicates initial (Some col)) = col"
    using cne by (simp add: exhaustedFallback_def avoidDuplicates_def initial_def
        object_values_def Let_def)
  have st: "obj_set (colorCache initial) name col = [(name, col)]"
    using npr by (simp add: initial_def obj_set_fresh_name)
  show ?thesis
    using getColorForGroup_fresh[OF ne, of initial] und b ch st
    by (simp add: initial_def)
qed

lemma category_keys: 
  "map fst categoryBaseColor = [''ecodesign'', ''fireplace'', ''gas'', ''power'', ''road'']"
  by (simp add: categoryBaseColor_def)

lemma category_color_at:
  assumes "i < 5"
  shows "map_of categoryBaseColor ([''ecodesign'', ''fireplace'', ''gas'', ''power'', ''road''] ! i) =
         Some ([''#F58231'', ''#E6194B'', ''#4363D8'', ''#3CB44B'', ''#46F0F0''] ! i)"
proof -
  from assms have "i = 0 \<or> i = 1 \<or> i = 2 \<or> i = 3 \<or> i = 4" by arith
  then show ?thesis by (auto simp: categoryBaseColor_table)
qed

lemma findCategory_first_match:
  assumes i: "i < 5"
    and hit: "sublist ([''ecodesign'', ''fireplace'', ''gas'', ''power'', ''road''] ! i)
                (toLowerCase name)"
    and first: "\<forall>j<i. \<not> sublist ([''ecodesign'', ''fireplace'', ''gas'', ''power'', ''road''] ! j)
                (toLowerCase name)"
  shows "findCategory name = Some ([''ecodesign'', ''fireplace'', ''gas'', ''power'', ''road''] ! i)"
  unfolding findCategory_def category_keys find_Some_iff str_includes_sublist
  using assms by (intro exI[of _ i]) simp

lemma findCategory_some_match:
  assumes "\<exists>k\<in>set [''ecodesign'', ''fireplace'', ''gas'', ''power'', ''road''].
             sublist k (toLowerCase name)"
  shows "\<exists>i<5. sublist ([''ecodesign'', ''fireplace'', ''gas'', ''power'', ''road''] ! i)
                  (toLowerCase name) \<and>
               (\<forall>j<i. \<not> sublist ([''ecodesign'', ''fireplace'', ''gas'', ''power'', ''road''] ! j)
                  (toLowerCase name)) \<and>
               findCategory name =
                 Some ([''ecodesign'', ''fireplace'', ''gas'', ''power'', ''road''] ! i)"
proof -
  let ?ks = "[''ecodesign'', ''fireplace'', ''gas'', ''power'', ''road'']"
  let ?P = "\<lambda>c. sublist c (toLowerCase name)"
  from assms have "find ?P ?ks \<noteq> None" unfolding find_None_iff by blast
  then obtain k where "find ?P ?ks = Some k" by blast
  then obtain i where i: "i < length ?ks" and p: "?P (?ks ! i)" and k: "k = ?ks ! i"
    and f: "\<forall>j<i. \<not> ?P (?ks ! j)"
    unfolding find_Some_iff by blast
  have i5: "i < 5" using i by simp
  from findCategory_first_match[OF i5 p f] i5 p f show ?thesis by blast
qed

section \<open>The claims\<close>

text \<open>
  Claim C1 (no collision up to ten names). On a freshly loaded or freshly reset module,
  passing at most ten distinct non-empty names once each to \<open>getColorForGroup\<close> returns
  pairwise distinct values, and no two names in the resulting cache hold the same colour.
\<close>

theorem no_collision_under_ten:
  assumes "distinct names" and "[] \<notin> set names" and "length names \<le> 10"
  shows "distinct (fst (assignAll initial (map Some names))) \<and>
         distinct (object_values (colorCache (snd (assignAll initial (map Some names))))) \<and>
         distinct (object_keys (colorCache (snd (assignAll initial (map Some names))))) \<and>
         assignAll (resetColorSystem s0) (map Some names) = assignAll initial (map Some names)"
proof -
  have "set names \<inter> fst ` set (colorCache initial) = {}" by (simp add: initial_def)
  moreover have "length (colorCache initial) + length names \<le> 10"
    using assms(3) by (simp add: initial_def)
  ultimately obtain rs s' where a: "assignAll initial (map Some names) = (rs, s')"
    and cf: "collision_free s'" and d: "distinct rs"
    using assignAll_no_collision[OF collision_free_initial assms(1,2)] by blast
  from a cf d show ?thesis
    by (simp add: collision_free_def resetColorSystem_initial)
qed

theorem no_collision_under_ten_witness:
  "distinct [''Power Station A'', ''Power Station B'', ''Gas Boilers'', ''Road Transport'',
             ''constructor'', ''Fireplaces'', ''Ecodesign Stove'', ''Coal'', ''Wood'',
             ''Gas Leakage''] \<and>
   [] \<notin> set [''Power Station A'', ''Power Station B'', ''Gas Boilers'', ''Road Transport'',
             ''constructor'', ''Fireplaces'', ''Ecodesign Stove'', ''Coal'', ''Wood'',
             ''Gas Leakage''] \<and>
   length [''Power Station A'', ''Power Station B'', ''Gas Boilers'', ''Road Transport'',
             ''constructor'', ''Fireplaces'', ''Ecodesign Stove'', ''Coal'', ''Wood'',
             ''Gas Leakage''] \<le> 10 \<and>
   distinct (fst (assignAll initial (map Some
            [''Power Station A'', ''Power Station B'', ''Gas Boilers'', ''Road Transport'',
             ''constructor'', ''Fireplaces'', ''Ecodesign Stove'', ''Coal'', ''Wood'',
             ''Gas Leakage''])))"
proof -
  let ?ns = "[''Power Station A'', ''Power Station B'', ''Gas Boilers'', ''Road Transport'',
             ''constructor'', ''Fireplaces'', ''Ecodesign Stove'', ''Coal'', ''Wood'',
             ''Gas Leakage'']"
  have a: "distinct ?ns" by simp
  have b: "[] \<notin> set ?ns" by simp
  have c: "length ?ns \<le> 10" by simp
  from no_collision_under_ten[OF a b c] a b c show ?thesis by blast
qed

text \<open>
  Claim C2 (idempotence). For a non-empty name, once \<open>getColorForGroup\<close> has returned a
  value for it, every later call for that name returns the same value and changes nothing,
  whatever calls come in between, as long as none of them is \<open>resetColorSystem\<close> or a
  \<open>setColorForGroup\<close> for that name: calls for other names, overrides of other names and
  \<open>getColorCache\<close> leave the entry of the name as it is. This holds from every state; the
  case of no call in between is the second call right after the first. And once the cache
  holds a non-empty colour for the name, the call returns exactly that colour and changes
  nothing.
\<close>

theorem getColorForGroup_idempotent:
  assumes "n \<noteq> []"
  shows "(\<forall>cs. ResetColorSystem \<notin> set cs \<and> (\<forall>col. SetColorForGroup n col \<notin> set cs) \<longrightarrow>
            (case getColorForGroup s (Some n) of (r1, s1) \<Rightarrow>
               getColorForGroup (run s1 cs) (Some n) = (r1, run s1 cs) \<and>
               map_of (colorCache (run s1 cs)) n = map_of (colorCache s1) n)) \<and>
         (case getColorForGroup s (Some n) of (r1, s1) \<Rightarrow>
            getColorForGroup s1 (Some n) = (r1, s1)) \<and>
         (\<forall>c. map_of (colorCache s) n = Some c \<and> c \<noteq> [] \<longrightarrow>
            getColorForGroup s (Some n) = (Str c, s))"
proof -
  obtain r1 s1 where g: "getColorForGroup s (Some n) = (r1, s1)"
    by (cases "getColorForGroup s (Some n)")
  have a: "getColorForGroup (run s1 cs) (Some n) = (r1, run s1 cs) \<and>
           map_of (colorCache (run s1 cs)) n = map_of (colorCache s1) n"
    if "ResetColorSystem \<notin> set cs" "\<forall>col. SetColorForGroup n col \<notin> set cs" for cs
    using getColorForGroup_stable[OF assms g that] .
  have b: "getColorForGroup s1 (Some n) = (r1, s1)"
    using getColorForGroup_twice[of s "Some n"] g by simp
  have c: "getColorForGroup s (Some n) = (Str c, s)"
    if "map_of (colorCache s) n = Some c" "c \<noteq> []" for c
    using that assms by (simp add: getColorForGroup_cached obj_get_own)
  from a b c g show ?thesis by simp
qed

theorem getColorForGroup_idempotent_witness:
  "''Coal'' \<noteq> [] \<and>
   ResetColorSystem \<notin> set [GetColorForGroup (Some ''Wood''), SetColorForGroup ''Wood'' ''#123456'',
                            GetColorCache, GetColorForGroup (Some ''Fireplace'')] \<and>
   SetColorForGroup ''Coal'' ''#123456'' \<notin>
     set [GetColorForGroup (Some ''Wood''), SetColorForGroup ''Wood'' ''#123456'',
          GetColorCache, GetColorForGroup (Some ''Fireplace'')] \<and>
   getColorForGroup initial (Some ''Coal'') =
     (Str ''#E6194B'', \<lparr>colorCache = [(''Coal'', ''#E6194B'')], availableColors = distinctPalette\<rparr>) \<and>
   getColorForGroup
     (run \<lparr>colorCache = [(''Coal'', ''#E6194B'')], availableColors = distinctPalette\<rparr>
        [GetColorForGroup (Some ''Wood''), SetColorForGroup ''Wood'' ''#123456'',
         GetColorCache, GetColorForGroup (Some ''Fireplace'')])
     (Some ''Coal'') =
     (Str ''#E6194B'',
      run \<lparr>colorCache = [(''Coal'', ''#E6194B'')], availableColors = distinctPalette\<rparr>
        [GetColorForGroup (Some ''Wood''), SetColorForGroup ''Wood'' ''#123456'',
         GetColorCache, GetColorForGroup (Some ''Fireplace'')]) \<and>
   map_of [(''Coal'', ''#E6194B'')] ''Coal'' = Some ''#E6194B'' \<and> ''#E6194B'' \<noteq> [] \<and>
   getColorForGroup \<lparr>colorCache = [(''Coal'', ''#E6194B'')], availableColors = distinctPalette\<rparr>
     (Some ''Coal'') =
     (Str ''#E6194B'', \<lparr>colorCache = [(''Coal'', ''#E6194B'')], availableColors = distinctPalette\<rparr>)"
proof -
  let ?cs = "[GetColorForGroup (Some ''Wood''), SetColorForGroup ''Wood'' ''#123456'',
              GetColorCache, GetColorForGroup (Some ''Fireplace'')]"
  let ?s1 = "\<lparr>colorCache = [(''Coal'', ''#E6194B'')], availableColors = distinctPalette\<rparr>"
  have n: "''Coal'' \<noteq> []" by simp
  have r: "ResetColorSystem \<notin> set ?cs" by simp
  have w: "\<forall>col. SetColorForGroup ''Coal'' col \<notin> set ?cs" by simp
  have g: "getColorForGroup initial (Some ''Coal'') = (Str ''#E6194B'', ?s1)"
    by (simp add: eval_defs)
  have m: "map_of (colorCache ?s1) ''Coal'' = Some ''#E6194B''" by simp
  from getColorForGroup_idempotent[OF n, of initial] r w g
  have "getColorForGroup (run ?s1 ?cs) (Some ''Coal'') = (Str ''#E6194B'', run ?s1 ?cs)"
    by auto
  moreover from getColorForGroup_idempotent[OF n, of ?s1] m
  have "getColorForGroup ?s1 (Some ''Coal'') = (Str ''#E6194B'', ?s1)"
    by auto
  ultimately show ?thesis using g by simp
qed

text \<open>
  Claim C3 (category preference). On a freshly loaded module, a name whose lowercasing
  contains one of the keys ecodesign, fireplace, gas, power, road as a substring gets the
  colour of the first key, in that order, that it contains: palette entries 4, 0, 3, 1
  and 6, that is \<open>#F58231\<close>, \<open>#E6194B\<close>, \<open>#4363D8\<close>, \<open>#3CB44B\<close> and \<open>#46F0F0\<close>. The new cache
  entry is stored under the name exactly as passed: \<open>Power Station A\<close> gets \<open>#3CB44B\<close>,
  \<open>Gas Boilers\<close> gets \<open>#4363D8\<close>, \<open>ECODESIGN Stove\<close> gets \<open>#F58231\<close> under the key
  \<open>ECODESIGN Stove\<close>, and the cache has nothing under \<open>ecodesign stove\<close>.
\<close>

theorem category_preference:
  "(\<forall>name i.
      i < 5 \<and>
      sublist ([''ecodesign'', ''fireplace'', ''gas'', ''power'', ''road''] ! i) (toLowerCase name) \<and>
      (\<forall>j<i. \<not> sublist ([''ecodesign'', ''fireplace'', ''gas'', ''power'', ''road''] ! j)
                  (toLowerCase name)) \<longrightarrow>
      getColorForGroup initial (Some name) =
        (Str ([''#F58231'', ''#E6194B'', ''#4363D8'', ''#3CB44B'', ''#46F0F0''] ! i),
         \<lparr>colorCache =
            [(name, [''#F58231'', ''#E6194B'', ''#4363D8'', ''#3CB44B'', ''#46F0F0''] ! i)],
          availableColors = distinctPalette\<rparr>)) \<and>
   (\<forall>name.
      (\<exists>k\<in>set [''ecodesign'', ''fireplace'', ''gas'', ''power'', ''road''].
          sublist k (toLowerCase name)) \<longrightarrow>
      (\<exists>i<5.
          sublist ([''ecodesign'', ''fireplace'', ''gas'', ''power'', ''road''] ! i)
            (toLowerCase name) \<and>
          (\<forall>j<i. \<not> sublist ([''ecodesign'', ''fireplace'', ''gas'', ''power'', ''road''] ! j)
                      (toLowerCase name)) \<and>
          getColorForGroup initial (Some name) =
            (Str ([''#F58231'', ''#E6194B'', ''#4363D8'', ''#3CB44B'', ''#46F0F0''] ! i),
             \<lparr>colorCache =
                [(name, [''#F58231'', ''#E6194B'', ''#4363D8'', ''#3CB44B'', ''#46F0F0''] ! i)],
              availableColors = distinctPalette\<rparr>))) \<and>
   [''#F58231'', ''#E6194B'', ''#4363D8'', ''#3CB44B'', ''#46F0F0''] =
     map (\<lambda>i. distinctPalette ! i) [4, 0, 3, 1, 6] \<and>
   (\<forall>name k col.
      findCategory name = Some k \<and> map_of categoryBaseColor k = Some col \<longrightarrow>
      getColorForGroup initial (Some name) =
        (Str col, \<lparr>colorCache = [(name, col)], availableColors = distinctPalette\<rparr>)) \<and>
   map fst categoryBaseColor = [''ecodesign'', ''fireplace'', ''gas'', ''power'', ''road''] \<and>
   toLowerCase ''ECODESIGN Stove'' = ''ecodesign stove'' \<and>
   getColorForGroup initial (Some ''Power Station A'') =
     (Str ''#3CB44B'',
      \<lparr>colorCache = [(''Power Station A'', ''#3CB44B'')], availableColors = distinctPalette\<rparr>) \<and>
   getColorForGroup initial (Some ''Gas Boilers'') =
     (Str ''#4363D8'',
      \<lparr>colorCache = [(''Gas Boilers'', ''#4363D8'')], availableColors = distinctPalette\<rparr>) \<and>
   getColorForGroup initial (Some ''ECODESIGN Stove'') =
     (Str ''#F58231'',
      \<lparr>colorCache = [(''ECODESIGN Stove'', ''#F58231'')], availableColors = distinctPalette\<rparr>) \<and>
   obj_get (colorCache (snd (getColorForGroup initial (Some ''ECODESIGN Stove''))))
     ''ecodesign stove'' = Undefined"
proof -
  let ?ks = "[''ecodesign'', ''fireplace'', ''gas'', ''power'', ''road'']"
  let ?cols = "[''#F58231'', ''#E6194B'', ''#4363D8'', ''#3CB44B'', ''#46F0F0'']"
  have byidx: "getColorForGroup initial (Some name) =
        (Str (?cols ! i), \<lparr>colorCache = [(name, ?cols ! i)], availableColors = distinctPalette\<rparr>)"
    if "i < 5" "sublist (?ks ! i) (toLowerCase name)"
       "\<forall>j<i. \<not> sublist (?ks ! j) (toLowerCase name)" for name i
    using findCategory_first_match[OF that] category_color_at[OF that(1)]
    by (rule category_color_assigned)
  have bysub: "\<exists>i<5. sublist (?ks ! i) (toLowerCase name) \<and>
          (\<forall>j<i. \<not> sublist (?ks ! j) (toLowerCase name)) \<and>
          getColorForGroup initial (Some name) =
            (Str (?cols ! i),
             \<lparr>colorCache = [(name, ?cols ! i)], availableColors = distinctPalette\<rparr>)"
    if "\<exists>k\<in>set ?ks. sublist k (toLowerCase name)" for name
  proof -
    from findCategory_some_match[OF that] obtain i where i: "i < 5"
      and p: "sublist (?ks ! i) (toLowerCase name)"
      and f: "\<forall>j<i. \<not> sublist (?ks ! j) (toLowerCase name)"
      by blast
    from byidx[OF i p f] i p f show ?thesis by blast
  qed
  have cols: "?cols = map (\<lambda>i. distinctPalette ! i) [4, 0, 3, 1, 6]"
    by (simp add: distinctPalette_def)
  have gen: "getColorForGroup initial (Some name) =
        (Str col, \<lparr>colorCache = [(name, col)], availableColors = distinctPalette\<rparr>)"
    if "findCategory name = Some k" "map_of categoryBaseColor k = Some col" for name k col
    using that by (rule category_color_assigned)
  have low: "toLowerCase ''ECODESIGN Stove'' = ''ecodesign stove''"
    by (simp add: toLowerCase_def lower_char_def)
  have e1: "getColorForGroup initial (Some ''Power Station A'') =
     (Str ''#3CB44B'',
      \<lparr>colorCache = [(''Power Station A'', ''#3CB44B'')], availableColors = distinctPalette\<rparr>)"
    by (simp add: eval_defs)
  have e2: "getColorForGroup initial (Some ''Gas Boilers'') =
     (Str ''#4363D8'',
      \<lparr>colorCache = [(''Gas Boilers'', ''#4363D8'')], availableColors = distinctPalette\<rparr>)"
    by (simp add: eval_defs)
  have e3: "getColorForGroup initial (Some ''ECODESIGN Stove'') =
     (Str ''#F58231'',
      \<lparr>colorCache = [(''ECODESIGN Stove'', ''#F58231'')], availableColors = distinctPalette\<rparr>)"
    by (simp add: eval_defs)
  have e4: "obj_get (colorCache (snd (getColorForGroup initial (Some ''ECODESIGN Stove''))))
     ''ecodesign stove'' = Undefined"
    unfolding e3 by (simp add: obj_get_def objectPrototypeKeys_def)
  show ?thesis
    apply (intro conjI allI impI)
    subgoal for name i using byidx[of i name] by blast
    subgoal for name using bysub[of name] by blast
    subgoal by (rule cols)
    subgoal for name k col using gen[of name k col] by blast
    subgoal by (rule category_keys)
    subgoal by (rule low)
    subgoal by (rule e1)
    subgoal by (rule e2)
    subgoal by (rule e3)
    subgoal by (rule e4)
    done
qed

theorem category_preference_witness:
  "(2::nat) < 5 \<and>
   toLowerCase ''Gas works by the road'' = ''gas works by the road'' \<and>
   sublist ''gas'' (toLowerCase ''Gas works by the road'') \<and>
   sublist ''road'' (toLowerCase ''Gas works by the road'') \<and>
   \<not> sublist ''ecodesign'' (toLowerCase ''Gas works by the road'') \<and>
   \<not> sublist ''fireplace'' (toLowerCase ''Gas works by the road'') \<and>
   getColorForGroup initial (Some ''Gas works by the road'') =
     (Str ''#4363D8'',
      \<lparr>colorCache = [(''Gas works by the road'', ''#4363D8'')],
         availableColors = distinctPalette\<rparr>)"
proof -
  let ?ks = "[''ecodesign'', ''fireplace'', ''gas'', ''power'', ''road'']"
  let ?n = "''Gas works by the road''"
  have l: "toLowerCase ?n = ''gas works by the road''"
    by (simp add: toLowerCase_def lower_char_def)
  have g: "sublist ''gas'' (toLowerCase ?n)"
    unfolding l str_includes_sublist[symmetric] by simp
  have r: "sublist ''road'' (toLowerCase ?n)"
    unfolding l str_includes_sublist[symmetric] by simp
  have e: "\<not> sublist ''ecodesign'' (toLowerCase ?n)"
    unfolding l str_includes_sublist[symmetric] by simp
  have f: "\<not> sublist ''fireplace'' (toLowerCase ?n)"
    unfolding l str_includes_sublist[symmetric] by simp
  have i: "(2::nat) < 5" by simp
  have hit: "sublist (?ks ! 2) (toLowerCase ?n)" using g by simp
  have first: "\<forall>j<2. \<not> sublist (?ks ! j) (toLowerCase ?n)"
  proof (intro allI impI)
    fix j :: nat assume "j < 2"
    then have "j = 0 \<or> j = 1" by arith
    then show "\<not> sublist (?ks ! j) (toLowerCase ?n)" using e f by auto
  qed
  from category_preference have "\<forall>name i.
      i < 5 \<and>
      sublist (?ks ! i) (toLowerCase name) \<and>
      (\<forall>j<i. \<not> sublist (?ks ! j) (toLowerCase name)) \<longrightarrow>
      getColorForGroup initial (Some name) =
        (Str ([''#F58231'', ''#E6194B'', ''#4363D8'', ''#3CB44B'', ''#46F0F0''] ! i),
         \<lparr>colorCache =
            [(name, [''#F58231'', ''#E6194B'', ''#4363D8'', ''#3CB44B'', ''#46F0F0''] ! i)],
          availableColors = distinctPalette\<rparr>)"
    by (rule conjunct1)
  from this[rule_format, of 2 ?n] i hit first
  have "getColorForGroup initial (Some ?n) =
     (Str ''#4363D8'', \<lparr>colorCache = [(?n, ''#4363D8'')], availableColors = distinctPalette\<rparr>)"
    by simp
  with i l g r e f show ?thesis by blast
qed



text \<open>
  Claim C5 (wraparound), amended. For a non-empty name that has no value yet, when every
  palette colour is among the values of the cache, \<open>getColorForGroup\<close> returns the palette
  entry at the number of keys of the cache modulo 10. Feeding eleven distinct non-empty
  names, none of them the name of a member of \<open>Object.prototype\<close>, to a freshly loaded
  module gives the eleventh name \<open>palette[10 % 10] = #E6194B\<close>, the colour already held by
  one of the first ten names.
\<close>

theorem exhaustion_wraparound:
  "(\<forall>s n. n \<noteq> [] \<and> \<not> truthy (obj_get (colorCache s) n) \<and>
          availableColors s = distinctPalette \<and>
          set distinctPalette \<subseteq> set (object_values (colorCache s)) \<longrightarrow>
          fst (getColorForGroup s (Some n)) =
            Str (distinctPalette ! (length (object_keys (colorCache s)) mod 10))) \<and>
   (\<forall>names. length names = 11 \<and> distinct names \<and> [] \<notin> set names \<and>
            set names \<inter> set objectPrototypeKeys = {} \<longrightarrow>
            fst (assignAll initial (map Some names)) ! 10 = Str ''#E6194B'' \<and>
            (\<exists>i<10. fst (assignAll initial (map Some names)) ! i = Str ''#E6194B'')) \<and>
   distinctPalette ! (10 mod 10) = ''#E6194B''"
proof -
  have "distinctPalette ! (10 mod 10) = ''#E6194B''" by (simp add: distinctPalette_def)
  then show ?thesis
    using getColorForGroup_exhausted eleventh_name by simp
qed

theorem exhaustion_wraparound_witness:
  "length [''A'', ''B'', ''C'', ''D'', ''E'', ''F'', ''G'', ''H'', ''I'', ''J'', ''K''] = 11 \<and>
   distinct [''A'', ''B'', ''C'', ''D'', ''E'', ''F'', ''G'', ''H'', ''I'', ''J'', ''K''] \<and>
   [] \<notin> set [''A'', ''B'', ''C'', ''D'', ''E'', ''F'', ''G'', ''H'', ''I'', ''J'', ''K''] \<and>
   set [''A'', ''B'', ''C'', ''D'', ''E'', ''F'', ''G'', ''H'', ''I'', ''J'', ''K''] \<inter>
     set objectPrototypeKeys = {} \<and>
   fst (assignAll initial (map Some
     [''A'', ''B'', ''C'', ''D'', ''E'', ''F'', ''G'', ''H'', ''I'', ''J'', ''K''])) ! 10 =
     Str ''#E6194B'' \<and>
   ''K'' \<noteq> [] \<and>
   \<not> truthy (obj_get (zip [''A'', ''B'', ''C'', ''D'', ''E'', ''F'', ''G'', ''H'', ''I'', ''J'']
                        distinctPalette) ''K'') \<and>
   set distinctPalette \<subseteq>
     set (object_values (zip [''A'', ''B'', ''C'', ''D'', ''E'', ''F'', ''G'', ''H'', ''I'', ''J'']
                           distinctPalette)) \<and>
   fst (getColorForGroup
          \<lparr>colorCache = zip [''A'', ''B'', ''C'', ''D'', ''E'', ''F'', ''G'', ''H'', ''I'', ''J'']
                           distinctPalette,
             availableColors = distinctPalette\<rparr>
          (Some ''K'')) = Str (distinctPalette ! 0)"
proof -
  let ?names = "[''A'', ''B'', ''C'', ''D'', ''E'', ''F'', ''G'', ''H'', ''I'', ''J'', ''K'']"
  let ?s = "\<lparr>colorCache = zip [''A'', ''B'', ''C'', ''D'', ''E'', ''F'', ''G'', ''H'', ''I'', ''J'']
                           distinctPalette,
             availableColors = distinctPalette\<rparr>"
  have a: "length ?names = 11" by simp
  have b: "distinct ?names" by simp
  have c: "[] \<notin> set ?names" by simp
  have d: "set ?names \<inter> set objectPrototypeKeys = {}"
    by (simp add: objectPrototypeKeys_def)
  have e: "''K'' \<noteq> []" by simp
  have f: "\<not> truthy (obj_get (colorCache ?s) ''K'')"
    by (simp add: obj_get_def objectPrototypeKeys_def distinctPalette_def)
  have g: "availableColors ?s = distinctPalette" by simp
  have h: "set distinctPalette \<subseteq> set (object_values (colorCache ?s))"
    by (simp add: object_values_def distinctPalette_def)
  have k: "length (object_keys (colorCache ?s)) mod 10 = 0"
    by (simp add: object_keys_def distinctPalette_def)
  note w = exhaustion_wraparound
  from w have "fst (assignAll initial (map Some ?names)) ! 10 = Str ''#E6194B''"
    using a b c d by blast
  moreover from w have "fst (getColorForGroup ?s (Some ''K'')) =
            Str (distinctPalette ! (length (object_keys (colorCache ?s)) mod 10))"
    using e f g h by blast
  ultimately show ?thesis using a b c d e f h k by simp
qed

text \<open>
  Where claim C5 as written fails: the colour repeated by the eleventh name need not be
  the first name's. Here the first name matches the category \<open>power\<close> and holds
  \<open>#3CB44B\<close>, while the eleventh name gets \<open>#E6194B\<close>, the colour of the second name.
\<close>

theorem wraparound_first_name_counterexample:
  "fst (assignAll initial (map Some
     [''Power Stations'', ''Aviation'', ''Shipping'', ''Rail'', ''Agriculture'', ''Waste'',
      ''Solvents'', ''Cement'', ''Steel'', ''Quarrying'', ''Forestry''])) =
   [Str ''#3CB44B'', Str ''#E6194B'', Str ''#FFE119'', Str ''#4363D8'', Str ''#F58231'',
    Str ''#911EB4'', Str ''#46F0F0'', Str ''#F032E6'', Str ''#BCF60C'', Str ''#FABEBE'',
    Str ''#E6194B''] \<and>
   fst (assignAll initial (map Some
     [''Power Stations'', ''Aviation'', ''Shipping'', ''Rail'', ''Agriculture'', ''Waste'',
      ''Solvents'', ''Cement'', ''Steel'', ''Quarrying'', ''Forestry''])) ! 10 \<noteq>
   fst (assignAll initial (map Some
     [''Power Stations'', ''Aviation'', ''Shipping'', ''Rail'', ''Agriculture'', ''Waste'',
      ''Solvents'', ''Cement'', ''Steel'', ''Quarrying'', ''Forestry''])) ! 0"
  by code_simp

text \<open>
  Claim C6 (empty-name sentinel). Called with \<open>undefined\<close> or with the empty string,
  \<open>getColorForGroup\<close> returns \<open>#888888\<close> and leaves the state untouched, so
  \<open>getColorCache()\<close> gives the same mapping before and after.
\<close>

theorem empty_name_sentinel:
  "getColorForGroup s None = (Str ''#888888'', s) \<and>
   getColorForGroup s (Some []) = (Str ''#888888'', s) \<and>
   getColorCache (snd (getColorForGroup s None)) = getColorCache s \<and>
   getColorCache (snd (getColorForGroup s (Some []))) = getColorCache s"
  by (simp add: getColorForGroup_def)

text \<open>
  Claim C7 (reset). After \<open>resetColorSystem()\<close> the cache is empty, and any sequence of
  \<open>getColorForGroup\<close> calls returns the same values and ends in the same state as on a
  freshly loaded module.
\<close>

theorem reset_restores_fresh_engine:
  "getColorCache (resetColorSystem s) = [] \<and>
   assignAll (resetColorSystem s) names = assignAll initial names"
  by (simp add: resetColorSystem_initial) (simp add: getColorCache_def initial_def)

text \<open>
  Claim C8 (override), amended. For a non-empty name other than \<open>__proto__\<close> and a
  non-empty colour, \<open>setColorForGroup\<close> overwrites or creates the cache entry of the name
  with that colour and changes nothing else, and the next \<open>getColorForGroup\<close> for the
  name returns exactly that colour and leaves the state alone, palette colour or not:
  after \<open>setColorForGroup("X", "#123456")\<close>, \<open>getColorForGroup("X")\<close> returns \<open>#123456\<close>.
\<close>

theorem override_bypass:
  assumes "name \<noteq> []" and "color \<noteq> []" and "name \<noteq> ''__proto__''"
  shows "map_of (colorCache (setColorForGroup s name color)) = (map_of (colorCache s))(name \<mapsto> color) \<and>
         availableColors (setColorForGroup s name color) = availableColors s \<and>
         getColorForGroup (setColorForGroup s name color) (Some name) =
           (Str color, setColorForGroup s name color) \<and>
         getColorForGroup (setColorForGroup initial ''X'' ''#123456'') (Some ''X'') =
           (Str ''#123456'', setColorForGroup initial ''X'' ''#123456'') \<and>
         ''#123456'' \<notin> set distinctPalette"
proof -
  have m: "map_of (colorCache (setColorForGroup s name color)) = (map_of (colorCache s))(name \<mapsto> color)"
    using assms(3) by (simp add: setColorForGroup_def map_of_obj_set)
  then have "obj_get (colorCache (setColorForGroup s name color)) name = Str color"
    by (simp add: obj_get_def)
  then have g: "getColorForGroup (setColorForGroup s name color) (Some name) =
           (Str color, setColorForGroup s name color)"
    using assms(1,2) by (simp add: getColorForGroup_cached)
  have x: "getColorForGroup (setColorForGroup initial ''X'' ''#123456'') (Some ''X'') =
           (Str ''#123456'', setColorForGroup initial ''X'' ''#123456'')"
    by (simp add: eval_defs)
  have "''#123456'' \<notin> set distinctPalette" by (simp add: distinctPalette_def)
  with m g x show ?thesis by (simp add: availableColors_setColorForGroup)
qed

theorem override_bypass_witness:
  "''Coal'' \<noteq> [] \<and> ''#ABCDEF'' \<noteq> [] \<and> ''Coal'' \<noteq> ''__proto__'' \<and>
   getColorForGroup (setColorForGroup (snd (getColorForGroup initial (Some ''Coal''))) ''Coal'' ''#ABCDEF'') (Some ''Coal'') =
     (Str ''#ABCDEF'', \<lparr>colorCache = [(''Coal'', ''#ABCDEF'')], availableColors = distinctPalette\<rparr>)"
proof -
  have a: "''Coal'' \<noteq> []" "''#ABCDEF'' \<noteq> []" "''Coal'' \<noteq> ''__proto__''" by simp_all
  have b: "setColorForGroup (snd (getColorForGroup initial (Some ''Coal''))) ''Coal'' ''#ABCDEF'' =
     \<lparr>colorCache = [(''Coal'', ''#ABCDEF'')], availableColors = distinctPalette\<rparr>"
    by (simp add: eval_defs)
  from override_bypass[OF a, of "snd (getColorForGroup initial (Some ''Coal''))"] a b
  show ?thesis by simp
qed

text \<open>
  Where claim C8 as written fails: \<open>setColorForGroup("", "#123456")\<close> does create the
  entry, but the guard on the empty name makes \<open>getColorForGroup("")\<close> return the
  sentinel \<open>#888888\<close>.
\<close>

theorem override_empty_name_counterexample:
  "colorCache (setColorForGroup initial [] ''#123456'') = [([], ''#123456'')] \<and>
   fst (getColorForGroup (setColorForGroup initial [] ''#123456'') (Some [])) = Str ''#888888'' \<and>
   fst (getColorForGroup (setColorForGroup initial [] ''#123456'') (Some [])) \<noteq> Str ''#123456''"
  by (simp add: eval_defs)

text \<open>
  Claim C9 (every call returns a colour). The claim holds for every name that is not the
  name of a member of \<open>Object.prototype\<close> (lemma \<open>getColorForGroup_string_result\<close>). For
  \<open>constructor\<close> on a freshly loaded module, the lookup \<open>colorCache[name]\<close> finds the
  inherited member, which is truthy, and \<open>getColorForGroup\<close> returns that built-in
  function instead of a colour string, caching nothing.
\<close>

theorem inherited_member_returned:
  "getColorForGroup initial (Some ''constructor'') = (ProtoMember ''constructor'', initial)"
  by (simp add: getColorForGroup_def initial_def obj_get_def objectPrototypeKeys_def)

text \<open>
  Claim C10 (\<open>availableColors\<close> is only written by reset). Neither \<open>getColorForGroup\<close> nor
  \<open>setColorForGroup\<close> nor \<open>getColorCache\<close> changes \<open>availableColors\<close>; after any
  sequence of calls on a freshly loaded module it is the palette in its original order,
  so a scan of it is a scan of the palette, and the state is determined by the cache.
\<close>

theorem availableColors_only_written_by_reset:
  "availableColors (snd (getColorForGroup s name)) = availableColors s \<and>
   availableColors (setColorForGroup s n color) = availableColors s \<and>
   availableColors (step s GetColorCache) = availableColors s \<and>
   availableColors (run initial cs) = distinctPalette \<and>
   find P (availableColors (run initial cs)) = find P distinctPalette \<and>
   run initial cs =
     \<lparr>colorCache = colorCache (run initial cs), availableColors = distinctPalette\<rparr>"
proof -
  have a: "availableColors (run initial cs) = distinctPalette"
    by (rule availableColors_run) (simp add: initial_def)
  then have "run initial cs =
      \<lparr>colorCache = colorCache (run initial cs), availableColors = distinctPalette\<rparr>"
    by (cases "run initial cs") simp
  with a show ?thesis
    by (simp add: availableColors_getColorForGroup availableColors_setColorForGroup)
qed

end
